theory Spec2Isabelle
  imports Complex_Main "HOL-Library.AList"
begin

section \<open>The plugin manager of smoker (smoker/server/pluginmanager.py)\<close>

text \<open>
  A shallow embedding of class \<open>PluginManager\<close>. Python dictionaries are association
  lists with one entry per key, read with \<^const>\<open>map_of\<close>; the order of the entries stands
  for the iteration order of the dictionary, which Python 2 leaves open, so the theorems
  below speak about lookups and sets, not about positions. Exceptions are values of
  type \<open>error\<close>, returned on the left of a sum. Plugin objects live in a store
  (a list indexed by address): the registry and the ledger hold addresses, so that a field
  written through one reference is seen through every other one. The calls of the logger
  are left out, except in \<open>stop\<close>, whose log lines are part of its result here.
\<close>

subsection \<open>Values and dictionaries\<close>

text \<open>
  The values a configuration holds: \<open>None\<close>, booleans, integers, strings, and nested
  dictionaries with string keys.
\<close>

datatype pyval =
    PNone
  | PBool bool
  | PInt int
  | PStr string
  | PDict "(string \<times> pyval) list"

type_synonym dict = "(string \<times> pyval) list"

text \<open>
  Python's \<open>==\<close> on these values: \<open>bool\<close> is a subclass of \<open>int\<close>, so \<open>False == 0\<close>
  and \<open>True == 1\<close>; two dictionaries are equal when they have the same number of keys and
  every key of the first is bound to an equal value in the second.
\<close>

function py_eq :: "pyval \<Rightarrow> pyval \<Rightarrow> bool" where
  "py_eq PNone y = (case y of PNone \<Rightarrow> True | _ \<Rightarrow> False)"
| "py_eq (PBool a) y =
     (case y of PBool b \<Rightarrow> a = b | PInt j \<Rightarrow> (if a then 1 else 0) = j | _ \<Rightarrow> False)"
| "py_eq (PInt i) y =
     (case y of PBool b \<Rightarrow> i = (if b then 1 else 0) | PInt j \<Rightarrow> i = j | _ \<Rightarrow> False)"
| "py_eq (PStr s) y = (case y of PStr t \<Rightarrow> s = t | _ \<Rightarrow> False)"
| "py_eq (PDict d) y =
     (case y of
        PDict e \<Rightarrow>
          length d = length e \<and>
          list_all (\<lambda>kv. case map_of e (fst kv) of
                            None \<Rightarrow> False
                          | Some w \<Rightarrow> py_eq (snd kv) w) d
      | _ \<Rightarrow> False)"
  by pat_completeness auto
termination
proof (relation "measure (\<lambda>(x, y). size x)", goal_cases)
  case 1
  show ?case by simp
next
  case (2 d y e kv w)
  have "size (snd kv) < Suc (size_list (size_prod (\<lambda>_. 0) size) d)"
    using 2(2) by (induction d) (auto simp: less_Suc_eq_le)
  then show ?case by simp
qed

text \<open>\<open>d.has_key(k)\<close>, \<open>d[k] = v\<close> and \<open>dict(d, **e)\<close>.\<close>

definition has_key :: "(string \<times> 'v) list \<Rightarrow> string \<Rightarrow> bool" where
  "has_key d k = (map_of d k \<noteq> None)"

definition dict_set :: "(string \<times> 'v) list \<Rightarrow> string \<Rightarrow> 'v \<Rightarrow> (string \<times> 'v) list" where
  "dict_set d k v = AList.update k v d"

definition dict_merge :: "dict \<Rightarrow> dict \<Rightarrow> dict" where
  "dict_merge d e = AList.merge d e"

subsection \<open>Exceptions\<close>

text \<open>
  The exception classes of \<open>smoker.server.exceptions\<close> that the manager raises, the
  built-in ones its expressions can raise, and \<open>PluginError\<close> for whatever the
  constructor of \<open>Plugin\<close> raises (an \<open>AssertionError\<close> or any other \<open>Exception\<close>).
  The module \<open>smoker.server.exceptions\<close> is outside this file; its classes are taken to
  derive from \<open>Exception\<close>, so that the handler of line 119 catches them.
\<close>

datatype error =
    NoTemplatesConfigured
  | TemplateNotFound
  | NoActionsConfigured
  | ActionNotFound
  | BasePluginTemplateNotFound
  | NoRunningPlugins
  | NoSuchPlugin
  | NoPluginsFound
  | TypeError
  | IndexError
  | AttributeError
  | PluginError

subsection \<open>Templates and actions\<close>

text \<open>
  \<open>conf_templates\<close> and \<open>conf_actions\<close> are \<open>None\<close> when the caller passed no
  dictionary (\<open>isinstance(..., dict)\<close> fails). The name looked up is a value of the
  options: a string is looked up, a dictionary is unhashable (\<open>TypeError\<close>), any other
  value is a key the dictionary does not have (\<open>KeyError\<close>).
\<close>

type_synonym templates = "(string \<times> dict) list option"

fun get_template :: "templates \<Rightarrow> pyval \<Rightarrow> error + dict" where
  "get_template None nm = Inl NoTemplatesConfigured"
| "get_template (Some ts) (PStr n) =
     (case map_of ts n of None \<Rightarrow> Inl TemplateNotFound | Some ps \<Rightarrow> Inr ps)"
| "get_template (Some ts) (PDict d) = Inl TypeError"
| "get_template (Some ts) nm = Inl TemplateNotFound"

fun get_action :: "templates \<Rightarrow> pyval \<Rightarrow> error + dict" where
  "get_action None nm = Inl NoActionsConfigured"
| "get_action (Some as) (PStr n) =
     (case map_of as n of None \<Rightarrow> Inl ActionNotFound | Some ps \<Rightarrow> Inr ps)"
| "get_action (Some as) (PDict d) = Inl TypeError"
| "get_action (Some as) nm = Inl ActionNotFound"

subsection \<open>Plugin objects\<close>

text \<open>
  The fields of a \<open>Plugin\<close> object that the manager reads or writes. The class itself
  (\<open>smoker.server.plugins\<close>) is outside this file: its constructor is a parameter
  \<open>ctor\<close> of the functions below, given the plugin name and the resolved parameters,
  returning the new object or the exception it raised. (The two other arguments of the
  call of line 148, the manager and the semaphore of the module, are the same in every
  call of one manager.)
\<close>

record plugin =
  name :: string
  params :: dict
  force :: bool
  forced_result :: pyval

type_synonym ctor = "string \<Rightarrow> dict \<Rightarrow> error + plugin"

text \<open>
  Lines 133 to 147 of \<open>load_plugin\<close>: the parameters handed to the constructor. A missing
  BasePlugin template counts as empty here; a named template and a named action must
  exist. \<open>options['Action']\<close> is overwritten with the action's parameters before the merge;
  the assignment also changes the dictionary the caller passed, which no method of the
  manager reads again.
\<close>

definition resolve_params :: "templates \<Rightarrow> templates \<Rightarrow> dict \<Rightarrow> error + dict" where
  "resolve_params conf_templates conf_actions options =
     (let template = (case get_template conf_templates (PStr ''BasePlugin'') of
                        Inl e \<Rightarrow> []
                      | Inr ps \<Rightarrow> ps)
      in case (if has_key options ''Template''
               then (case get_template conf_templates (the (map_of options ''Template'')) of
                       Inl e \<Rightarrow> Inl e
                     | Inr template_custom \<Rightarrow> Inr (dict_merge template template_custom))
               else Inr template) of
           Inl e \<Rightarrow> Inl e
         | Inr template' \<Rightarrow>
             (case (if has_key options ''Action''
                    then (case get_action conf_actions (the (map_of options ''Action'')) of
                            Inl e \<Rightarrow> Inl e
                          | Inr a \<Rightarrow> Inr (dict_set options ''Action'' (PDict a)))
                    else Inr options) of
                Inl e \<Rightarrow> Inl e
              | Inr options' \<Rightarrow> Inr (dict_merge template' options')))"

definition load_plugin :: "ctor \<Rightarrow> templates \<Rightarrow> templates \<Rightarrow> string \<Rightarrow> dict \<Rightarrow> error + plugin" where
  "load_plugin ctor conf_templates conf_actions plugin options =
     (case resolve_params conf_templates conf_actions options of
        Inl e \<Rightarrow> Inl e
      | Inr ps \<Rightarrow> ctor plugin ps)"

subsection \<open>The state shared by all managers\<close>

text \<open>
  \<open>plugins\<close> and \<open>processes\<close> are attributes of the class, created when the class body
  runs (\<open>processes\<close> with the \<open>None\<close> placed at index 0), and no method assigns them
  again: every method reads and updates these two objects. A process
  \<open>{'plugins': plugins_list}\<close> is the list of the addresses of its plugins; \<open>None\<close> in
  the ledger is the Python \<open>None\<close> at index 0.
\<close>

record class_state =
  heap :: "plugin list"
  plugins :: "(string \<times> nat) list"
  processes :: "nat list option list"

definition class_init :: class_state where
  "class_init = \<lparr>heap = [], plugins = [], processes = [None]\<rparr>"

text \<open>The attributes \<open>__init__\<close> sets on the instance.\<close>

record manager =
  conf_plugins :: "(string \<times> dict) list option"
  conf_actions :: templates
  conf_templates :: templates
  stopping :: bool

text \<open>Every address the registry holds is the address of an object of the store.\<close>

definition registry_ok :: "class_state \<Rightarrow> bool" where
  "registry_ok cs = list_all (\<lambda>a. a < length (heap cs)) (map snd (plugins cs))"

subsection \<open>Loading\<close>

text \<open>
  The body of the loop of \<open>load_plugins\<close> (lines 103 to 123), entry by entry. Whatever
  \<open>load_plugin\<close> raises is caught by one of the four handlers, each of which goes on to the
  next entry. \<open>conf_plugins\<close> is \<open>None\<close> when the caller gave no plugins:
  \<open>None.iteritems()\<close> is an \<open>AttributeError\<close>.
\<close>

definition is_disabled :: "dict \<Rightarrow> bool" where
  "is_disabled options =
     (has_key options ''Enabled'' \<and> py_eq (the (map_of options ''Enabled'')) (PBool False))"

fun load_entries ::
  "ctor \<Rightarrow> templates \<Rightarrow> templates \<Rightarrow> (string \<times> dict) list \<Rightarrow> class_state \<Rightarrow> class_state" where
  "load_entries ctor ts as [] cs = cs"
| "load_entries ctor ts as ((plugin, options) # rest) cs =
     (if is_disabled options then load_entries ctor ts as rest cs
      else (case load_plugin ctor ts as plugin options of
              Inl e \<Rightarrow> load_entries ctor ts as rest cs
            | Inr p \<Rightarrow>
                load_entries ctor ts as rest
                  (cs\<lparr>heap := heap cs @ [p],
                      plugins := dict_set (plugins cs) plugin (length (heap cs))\<rparr>)))"

definition load_plugins :: "ctor \<Rightarrow> manager \<Rightarrow> class_state \<Rightarrow> class_state \<times> (error + unit)" where
  "load_plugins ctor self cs =
     (case get_template (conf_templates self) (PStr ''BasePlugin'') of
        Inl e \<Rightarrow>
          (if e = TemplateNotFound \<or> e = NoTemplatesConfigured
           then (cs, Inl BasePluginTemplateNotFound)
           else (cs, Inl e))
      | Inr base \<Rightarrow>
          (case conf_plugins self of
             None \<Rightarrow> (cs, Inl AttributeError)
           | Some entries \<Rightarrow>
               (let cs' = load_entries ctor (conf_templates self) (conf_actions self) entries cs
                in if length (plugins cs') = 0 then (cs', Inl NoRunningPlugins)
                   else (cs', Inr ()))))"

text \<open>
  The constructor \<open>__init__\<close>: the new instance when \<open>load_plugins\<close> returns, its
  exception otherwise.
\<close>

definition PluginManager ::
  "ctor \<Rightarrow> (string \<times> dict) list option \<Rightarrow> templates \<Rightarrow> templates \<Rightarrow> class_state
     \<Rightarrow> class_state \<times> (error + manager)" where
  "PluginManager ctor plugins_arg actions templates cs =
     (let self = \<lparr>conf_plugins = plugins_arg, conf_actions = actions,
                  conf_templates = templates, stopping = False\<rparr>
      in case load_plugins ctor self cs of
           (cs', Inl e) \<Rightarrow> (cs', Inl e)
         | (cs', Inr u) \<Rightarrow> (cs', Inr self))"


subsection \<open>Queries\<close>

text \<open>
  \<open>get_plugins\<close> returns a list of plugins when the filter is a non-empty dictionary and
  the registry itself otherwise (\<open>None\<close> and \<open>{}\<close> are both false in \<open>if filter\<close>).
  Only the first key of the filter is read.
\<close>

datatype plugins_view = AsDict "(string \<times> nat) list" | AsList "nat list"

definition truthy :: "'a list option \<Rightarrow> bool" where
  "truthy x = (case x of None \<Rightarrow> False | Some xs \<Rightarrow> xs \<noteq> [])"

definition matching :: "class_state \<Rightarrow> string \<Rightarrow> pyval \<Rightarrow> nat list" where
  "matching cs key val =
     filter (\<lambda>a. has_key (params (heap cs ! a)) key \<and>
                  py_eq (the (map_of (params (heap cs ! a)) key)) val)
            (map snd (plugins cs))"

definition get_plugins :: "class_state \<Rightarrow> dict option \<Rightarrow> plugins_view" where
  "get_plugins cs flt =
     (case flt of
        Some ((key, val) # others) \<Rightarrow> AsList (matching cs key val)
      | _ \<Rightarrow> AsDict (plugins cs))"

definition get_plugin :: "class_state \<Rightarrow> string \<Rightarrow> error + nat" where
  "get_plugin cs nm = (case map_of (plugins cs) nm of None \<Rightarrow> Inl NoSuchPlugin | Some a \<Rightarrow> Inr a)"

subsection \<open>The ledger of forced runs\<close>

text \<open>The loop over the given names (lines 212 to 214): the first unknown name raises.\<close>

fun named_plugins :: "class_state \<Rightarrow> string list \<Rightarrow> error + nat list" where
  "named_plugins cs [] = Inr []"
| "named_plugins cs (nm # nms) =
     (case get_plugin cs nm of
        Inl e \<Rightarrow> Inl e
      | Inr a \<Rightarrow> (case named_plugins cs nms of Inl e \<Rightarrow> Inl e | Inr as \<Rightarrow> Inr (a # as)))"

text \<open>Lines 239 to 241: \<open>plugin.force = True; plugin.forced_result = None\<close>.\<close>

fun force_all :: "nat list \<Rightarrow> plugin list \<Rightarrow> plugin list" where
  "force_all [] h = h"
| "force_all (a # as) h = force_all as (h[a := (h ! a)\<lparr>force := True, forced_result := PNone\<rparr>])"

text \<open>
  Lines 209 to 218: \<open>plugins_list\<close>, the plugins given by name followed by the plugins the
  filter selects. With a true filter \<open>get_plugins\<close> returns a list.
\<close>

definition resolve_targets :: "class_state \<Rightarrow> string list option \<Rightarrow> dict option \<Rightarrow> error + nat list" where
  "resolve_targets cs plugins_arg flt =
     (case (if truthy plugins_arg then named_plugins cs (the plugins_arg) else Inr []) of
        Inl e \<Rightarrow> Inl e
      | Inr by_name \<Rightarrow>
          Inr (by_name @ (if truthy flt
                          then (case get_plugins cs flt of AsList l \<Rightarrow> l | AsDict d \<Rightarrow> [])
                          else [])))"

definition add_process ::
  "class_state \<Rightarrow> string list option \<Rightarrow> dict option \<Rightarrow> class_state \<times> (error + int)" where
  "add_process cs plugins_arg flt =
     (case resolve_targets cs plugins_arg flt of
        Inl e \<Rightarrow> (cs, Inl e)
      | Inr plugins_list \<Rightarrow>
          (if length plugins_list = 0 then (cs, Inl NoPluginsFound)
           else (let procs = processes cs @ [Some plugins_list]
                 in (cs\<lparr>heap := force_all plugins_list (heap cs), processes := procs\<rparr>,
                     Inr (int (length procs) - 1)))))"

text \<open>
  \<open>self.processes[id]\<close>: a negative index counts from the end of the list, an index
  outside the list is an \<open>IndexError\<close>.
\<close>

definition get_process :: "class_state \<Rightarrow> int \<Rightarrow> error + nat list option" where
  "get_process cs i =
     (let n = int (length (processes cs)); j = (if i < 0 then n + i else i)
      in if 0 \<le> j \<and> j < n then Inr (processes cs ! nat j) else Inl IndexError)"

subsection \<open>Starting and stopping\<close>

text \<open>
  What \<open>start\<close> and \<open>stop\<close> do outside the manager: the plugin objects whose
  \<open>terminate()\<close> was called (in the order of the calls), the lines written with
  \<open>lg.info\<close> (the count and the names of the plugins still alive) and the arguments of
  \<open>time.sleep\<close>. The methods \<open>start\<close>, \<open>terminate\<close> and \<open>is_alive\<close> belong to class
  \<open>Plugin\<close>, which is outside this file: the calls are recorded, and the answers of
  \<open>is_alive\<close> are a parameter \<open>alive\<close>, where \<open>alive k a\<close> is the answer of the plugin at
  address \<open>a\<close> in pass \<open>k\<close> of the loop (each pass asks every plugin once).
\<close>

definition start :: "class_state \<Rightarrow> nat list" where
  "start cs = map snd (plugins cs)"

record stop_effects =
  terminated :: "nat list"
  info :: "(nat \<times> string list) list"
  sleeps :: "rat list"

text \<open>Lines 80 to 83: the names of the plugins that answer alive in pass \<open>k\<close>.\<close>

definition plugins_left :: "(nat \<Rightarrow> nat \<Rightarrow> bool) \<Rightarrow> class_state \<Rightarrow> nat \<Rightarrow> string list" where
  "plugins_left alive cs k = map fst (filter (\<lambda>(nm, a). alive k a) (plugins cs))"

text \<open>
  The body of the loop of lines 79 to 89, entered when the previous \<open>plugins_left\<close> was
  not empty. The loop ends when a pass finds no plugin alive and runs forever when every
  pass finds one: not returning is the value \<open>None\<close>.
\<close>

partial_function (option) wait_stopped ::
  "(nat \<Rightarrow> nat \<Rightarrow> bool) \<Rightarrow> class_state \<Rightarrow> nat \<Rightarrow> nat \<Rightarrow> stop_effects \<Rightarrow> stop_effects option" where
  "wait_stopped alive cs k plugins_left_cnt eff =
     (let left = plugins_left alive cs k
      in if left \<noteq> []
         then wait_stopped alive cs (Suc k) (length left)
                (eff\<lparr>info := info eff @ (if length left \<noteq> plugins_left_cnt
                                       then [(length left, left)] else []),
                     sleeps := sleeps eff @ [1 / 2]\<rparr>)
         else Some eff)"

text \<open>
  \<open>stop\<close>: the loop is entered when \<open>blocking\<close> is true and the registry is not empty
  (\<open>plugins_left\<close> is first the list of all keys).
\<close>

definition stop ::
  "(nat \<Rightarrow> nat \<Rightarrow> bool) \<Rightarrow> manager \<Rightarrow> class_state \<Rightarrow> bool \<Rightarrow> (manager \<times> stop_effects) option" where
  "stop alive self cs blocking =
     (let self' = self\<lparr>stopping := True\<rparr>;
          eff = \<lparr>terminated = map snd (plugins cs), info = [], sleeps = []\<rparr>
      in if blocking \<and> plugins cs \<noteq> []
         then map_option (Pair self') (wait_stopped alive cs 0 (length (plugins cs)) eff)
         else Some (self', eff))"

text \<open>
  For the statement of the loop's result: the lines written in the passes \<open>k\<close> to
  \<open>K - 1\<close>, one for every pass whose count differs from the count before it, which is
  \<open>cnt\<close> for pass \<open>k\<close> and the count of the previous pass for the others.
\<close>

definition poll_log ::
  "(nat \<Rightarrow> nat \<Rightarrow> bool) \<Rightarrow> class_state \<Rightarrow> nat \<Rightarrow> nat \<Rightarrow> nat \<Rightarrow> (nat \<times> string list) list" where
  "poll_log alive cs cnt k K =
     concat (map (\<lambda>j. if length (plugins_left alive cs j) \<noteq>
                           (if j = k then cnt else length (plugins_left alive cs (j - 1)))
                        then [(length (plugins_left alive cs j), plugins_left alive cs j)]
                        else [])
                 [k ..< K])"

subsection \<open>Successive calls and example data\<close>

text \<open>A sequence of calls of \<open>add_process\<close>, each on the state the previous one left.\<close>

fun add_processes ::
  "class_state \<Rightarrow> (string list option \<times> dict option) list \<Rightarrow> class_state \<times> (error + int) list" where
  "add_processes cs [] = (cs, [])"
| "add_processes cs ((plugins_arg, flt) # calls) =
     (case add_process cs plugins_arg flt of
        (cs', r) \<Rightarrow> (case add_processes cs' calls of (cs'', rs) \<Rightarrow> (cs'', r # rs)))"

text \<open>
  The lists of plugins that the successful calls of such a sequence resolve, in the order
  of the calls: what each of them hands to \<open>self.processes.append\<close>.
\<close>

fun recorded :: "class_state \<Rightarrow> (string list option \<times> dict option) list \<Rightarrow> nat list list" where
  "recorded cs [] = []"
| "recorded cs ((plugins_arg, flt) # calls) =
     (case add_process cs plugins_arg flt of
        (cs', Inl e) \<Rightarrow> recorded cs' calls
      | (cs', Inr h) \<Rightarrow>
          (case resolve_targets cs plugins_arg flt of
             Inl e \<Rightarrow> []
           | Inr plugins_list \<Rightarrow> plugins_list) # recorded cs' calls)"

text \<open>
  The ledger as the class body leaves it and \<open>add_process\<close> keeps it: \<open>None\<close> at index 0,
  a process at every other index.
\<close>

definition ledger_ok :: "class_state \<Rightarrow> bool" where
  "ledger_ok cs =
     (case processes cs of [] \<Rightarrow> False | p # ps \<Rightarrow> p = None \<and> list_all (\<lambda>q. q \<noteq> None) ps)"

text \<open>
  Data for the examples: a constructor that stores its arguments and never raises, a
  configuration of two plugins, and the state after the first manager of a process has
  been built from it.
\<close>

definition simple_ctor :: ctor where
  "simple_ctor nm ps = Inr \<lparr>name = nm, params = ps, force = False, forced_result = PNone\<rparr>"

definition demo_templates :: templates where
  "demo_templates = Some [(''BasePlugin'', [(''Interval'', PInt 60)])]"

definition demo_plugins :: "(string \<times> dict) list" where
  "demo_plugins =
     [(''uptime'', [(''Category'', PStr ''system''), (''Command'', PStr ''uptime'')]),
      (''ping'', [(''Category'', PStr ''network''), (''Command'', PStr ''ping -c1 localhost'')])]"

definition demo_state :: class_state where
  "demo_state = fst (PluginManager simple_ctor (Some demo_plugins) None demo_templates class_init)"

text \<open>The example state after one forced run of \<open>uptime\<close>, and after a second run of all plugins.\<close>

definition demo_forced :: class_state where
  "demo_forced = fst (add_process demo_state (Some [''uptime'']) None)"

definition demo_twice :: class_state where
  "demo_twice = fst (add_process demo_forced None (Some [(''Interval'', PInt 60)]))"


text \<open>
  For \<open>stop\<close>: a manager of the example state, and plugins of which \<open>ping\<close> is alive in
  the first pass only and \<open>uptime\<close> in the first two.
\<close>

definition demo_alive :: "nat \<Rightarrow> nat \<Rightarrow> bool" where
  "demo_alive k a = (a = 0 \<and> k < 2 \<or> a = 1 \<and> k < 1)"

definition demo_manager :: manager where
  "demo_manager = \<lparr>conf_plugins = Some demo_plugins, conf_actions = None,
                    conf_templates = demo_templates, stopping = False\<rparr>"

section \<open>Properties\<close>

lemma map_of_dict_merge: "map_of (dict_merge d e) = map_of d ++ map_of e"
  by (simp add: dict_merge_def merge_conv')

lemma map_of_dict_set: "map_of (dict_set d k v) = (map_of d)(k \<mapsto> v)"
  by (simp add: dict_set_def update_conv')

subsection \<open>C1: the precedence of the merge\<close>

text \<open>
  C1. When the options name a template that exists (and, if they name an action, the action
  exists), \<open>load_plugin\<close> calls the constructor with a dictionary that is the BasePlugin
  template (empty when there is none), overridden key by key by the named template,
  overridden key by key by the options, where the options are all the keys the plugin
  entry has: \<open>Template\<close> itself is passed through like any other key, and \<open>Action\<close> is
  bound to the parameters of the action instead of its name.
\<close>

theorem resolve_params_precedence:
  assumes tmpl: "map_of options ''Template'' = Some tn"
    and custom: "get_template ts tn = Inr custom"
    and act: "has_key options ''Action'' \<longrightarrow>
               get_action as (the (map_of options ''Action'')) = Inr action"
  shows "\<exists>ps. resolve_params ts as options = Inr ps \<and>
           load_plugin ctor ts as pname options = ctor pname ps \<and>
           map_of ps =
             map_of (case get_template ts (PStr ''BasePlugin'') of Inl e \<Rightarrow> [] | Inr base \<Rightarrow> base)
               ++ map_of custom
               ++ (if has_key options ''Action''
                   then (map_of options)(''Action'' \<mapsto> PDict action)
                   else map_of options)"
  using assms
  by (auto simp: load_plugin_def resolve_params_def has_key_def map_of_dict_merge
        map_of_dict_set Let_def)

text \<open>
  The example of the specification, and the same entry with an action: the resolved
  parameters have the key \<open>Template\<close> besides \<open>a\<close>, \<open>b\<close>, \<open>c\<close> and \<open>d\<close>.
\<close>

theorem resolve_params_precedence_witness:
  "(\<exists>ps. resolve_params
       (Some [(''BasePlugin'', [(''a'', PInt 1), (''b'', PInt 2)]),
              (''T'', [(''b'', PInt 3), (''c'', PInt 4)])])
       None
       [(''c'', PInt 5), (''d'', PInt 6), (''Template'', PStr ''T'')]
       = Inr ps \<and>
     map_of ps = [''a'' \<mapsto> PInt 1, ''b'' \<mapsto> PInt 3, ''c'' \<mapsto> PInt 5, ''d'' \<mapsto> PInt 6,
                  ''Template'' \<mapsto> PStr ''T''])
   \<and>
   (\<exists>ps. resolve_params
       (Some [(''BasePlugin'', [(''a'', PInt 1), (''b'', PInt 2)]),
              (''T'', [(''b'', PInt 3), (''c'', PInt 4)])])
       (Some [(''ping'', [(''Command'', PStr ''ping -c1 localhost'')])])
       [(''c'', PInt 5), (''d'', PInt 6), (''Template'', PStr ''T''), (''Action'', PStr ''ping'')]
       = Inr ps \<and>
     map_of ps = [''a'' \<mapsto> PInt 1, ''b'' \<mapsto> PInt 3, ''c'' \<mapsto> PInt 5, ''d'' \<mapsto> PInt 6,
                  ''Template'' \<mapsto> PStr ''T'',
                  ''Action'' \<mapsto> PDict [(''Command'', PStr ''ping -c1 localhost'')]])"
proof -
  have first: "\<exists>ps. resolve_params
       (Some [(''BasePlugin'', [(''a'', PInt 1), (''b'', PInt 2)]),
              (''T'', [(''b'', PInt 3), (''c'', PInt 4)])])
       None
       [(''c'', PInt 5), (''d'', PInt 6), (''Template'', PStr ''T'')]
       = Inr ps \<and>
     map_of ps = [''a'' \<mapsto> PInt 1, ''b'' \<mapsto> PInt 3, ''c'' \<mapsto> PInt 5, ''d'' \<mapsto> PInt 6,
                  ''Template'' \<mapsto> PStr ''T'']"
    using resolve_params_precedence
      [of "[(''c'', PInt 5), (''d'', PInt 6), (''Template'', PStr ''T'')]"
          "PStr ''T''"
          "Some [(''BasePlugin'', [(''a'', PInt 1), (''b'', PInt 2)]),
                 (''T'', [(''b'', PInt 3), (''c'', PInt 4)])]"
          "[(''b'', PInt 3), (''c'', PInt 4)]"
          None "[]" "\<lambda>n ps. Inl PluginError" "''p''"]
    by (auto simp: has_key_def fun_eq_iff map_add_def)
  have second: "\<exists>ps. resolve_params
       (Some [(''BasePlugin'', [(''a'', PInt 1), (''b'', PInt 2)]),
              (''T'', [(''b'', PInt 3), (''c'', PInt 4)])])
       (Some [(''ping'', [(''Command'', PStr ''ping -c1 localhost'')])])
       [(''c'', PInt 5), (''d'', PInt 6), (''Template'', PStr ''T''), (''Action'', PStr ''ping'')]
       = Inr ps \<and>
     map_of ps = [''a'' \<mapsto> PInt 1, ''b'' \<mapsto> PInt 3, ''c'' \<mapsto> PInt 5, ''d'' \<mapsto> PInt 6,
                  ''Template'' \<mapsto> PStr ''T'',
                  ''Action'' \<mapsto> PDict [(''Command'', PStr ''ping -c1 localhost'')]]"
    using resolve_params_precedence
      [of "[(''c'', PInt 5), (''d'', PInt 6), (''Template'', PStr ''T''), (''Action'', PStr ''ping'')]"
          "PStr ''T''"
          "Some [(''BasePlugin'', [(''a'', PInt 1), (''b'', PInt 2)]),
                 (''T'', [(''b'', PInt 3), (''c'', PInt 4)])]"
          "[(''b'', PInt 3), (''c'', PInt 4)]"
          "Some [(''ping'', [(''Command'', PStr ''ping -c1 localhost'')])]"
          "[(''Command'', PStr ''ping -c1 localhost'')]" "\<lambda>n ps. Inl PluginError" "''p''"]
    by (auto simp: has_key_def fun_eq_iff map_add_def)
  from first second show ?thesis by blast
qed

text \<open>
  The example as the specification states it, with exactly the four keys \<open>a\<close> to \<open>d\<close> in the
  result, does not hold: the result binds \<open>Template\<close> too. (The order of the entries
  of the result carries no meaning.)
\<close>

theorem resolve_params_example_counterexample:
  "resolve_params
     (Some [(''BasePlugin'', [(''a'', PInt 1), (''b'', PInt 2)]),
            (''T'', [(''b'', PInt 3), (''c'', PInt 4)])])
     None
     [(''c'', PInt 5), (''d'', PInt 6), (''Template'', PStr ''T'')]
   = Inr [(''a'', PInt 1), (''b'', PInt 3), (''c'', PInt 5),
          (''Template'', PStr ''T''), (''d'', PInt 6)]
   \<and> map_of [(''a'', PInt 1), (''b'', PInt 3), (''c'', PInt 5),
          (''Template'', PStr ''T''), (''d'', PInt 6)]
     \<noteq> map_of [(''a'', PInt 1), (''b'', PInt 3), (''c'', PInt 5), (''d'', PInt 6)]"
proof -
  have "map_of [(''a'', PInt 1), (''b'', PInt 3), (''c'', PInt 5),
          (''Template'', PStr ''T''), (''d'', PInt 6)] ''Template''
     \<noteq> map_of [(''a'', PInt 1), (''b'', PInt 3), (''c'', PInt 5), (''d'', PInt 6)] ''Template''"
    by simp
  then have "map_of [(''a'', PInt 1), (''b'', PInt 3), (''c'', PInt 5),
          (''Template'', PStr ''T''), (''d'', PInt 6)]
     \<noteq> map_of [(''a'', PInt 1), (''b'', PInt 3), (''c'', PInt 5), (''d'', PInt 6)]"
    by metis
  moreover have "resolve_params
     (Some [(''BasePlugin'', [(''a'', PInt 1), (''b'', PInt 2)]),
            (''T'', [(''b'', PInt 3), (''c'', PInt 4)])])
     None
     [(''c'', PInt 5), (''d'', PInt 6), (''Template'', PStr ''T'')]
   = Inr [(''a'', PInt 1), (''b'', PInt 3), (''c'', PInt 5),
          (''Template'', PStr ''T''), (''d'', PInt 6)]"
    by (simp add: resolve_params_def has_key_def dict_merge_def dict_set_def AList.merge_def)
  ultimately show ?thesis by blast
qed

subsection \<open>Evaluation of the examples\<close>

lemmas eval_defs =
  demo_state_def demo_plugins_def demo_templates_def simple_ctor_def class_init_def
  PluginManager_def load_plugins_def load_plugin_def resolve_params_def is_disabled_def
  has_key_def dict_set_def dict_merge_def AList.merge_def
  add_process_def resolve_targets_def get_plugins_def get_plugin_def matching_def truthy_def
  get_process_def

lemma demo_state_value:
  "demo_state =
     \<lparr>heap =
        [\<lparr>name = ''uptime'',
          params = [(''Interval'', PInt 60), (''Command'', PStr ''uptime''),
                    (''Category'', PStr ''system'')],
          force = False, forced_result = PNone\<rparr>,
         \<lparr>name = ''ping'',
          params = [(''Interval'', PInt 60), (''Command'', PStr ''ping -c1 localhost''),
                    (''Category'', PStr ''network'')],
          force = False, forced_result = PNone\<rparr>],
      plugins = [(''uptime'', 0), (''ping'', 1)],
      processes = [None]\<rparr>"
  by (simp add: eval_defs)

subsection \<open>C4: no BasePlugin template\<close>

text \<open>
  C4. When the templates are not a dictionary, or are one without the key \<open>BasePlugin\<close>,
  the constructor of the manager raises \<open>BasePluginTemplateNotFound\<close>, whatever the plugin
  entries and the plugin constructor are, and leaves the registry, the store and the ledger
  as they were: no entry has been processed and no plugin has been loaded.
\<close>

theorem PluginManager_without_BasePlugin:
  assumes "case templates of None \<Rightarrow> True | Some ts \<Rightarrow> \<not> has_key ts ''BasePlugin''"
  shows "PluginManager ctor plugins_arg actions templates cs =
           (cs, Inl BasePluginTemplateNotFound)"
  using assms
  by (auto simp: PluginManager_def load_plugins_def has_key_def split: option.splits)

theorem PluginManager_without_BasePlugin_witness:
  "PluginManager simple_ctor (Some demo_plugins) None None class_init
     = (class_init, Inl BasePluginTemplateNotFound)
   \<and> PluginManager simple_ctor (Some [(''uptime'', [(''Template'', PStr ''T'')])]) None
        (Some [(''T'', [(''Interval'', PInt 5)])]) class_init
     = (class_init, Inl BasePluginTemplateNotFound)
   \<and> plugins class_init = []"
  using PluginManager_without_BasePlugin
          [of None simple_ctor "Some demo_plugins" None class_init]
        PluginManager_without_BasePlugin
          [of "Some [(''T'', [(''Interval'', PInt 5)])]" simple_ctor
              "Some [(''uptime'', [(''Template'', PStr ''T'')])]" None class_init]
  by (simp add: has_key_def class_init_def)

subsection \<open>C8: disabled entries\<close>

lemma load_entries_skip_disabled:
  "load_entries ctor ts as es cs =
   load_entries ctor ts as (filter (\<lambda>(n, opts). \<not> is_disabled opts) es) cs"
  by (induction ctor ts as es cs rule: load_entries.induct) (auto split: sum.splits)

lemma map_of_plugins_load_entries_other:
  "n \<notin> fst ` set es \<Longrightarrow>
   map_of (plugins (load_entries ctor ts as es cs)) n = map_of (plugins cs) n"
  by (induction ctor ts as es cs rule: load_entries.induct)
     (auto split: sum.splits simp: map_of_dict_set)

lemma filter_remove1_rejected: "\<not> P x \<Longrightarrow> filter P (remove1 x xs) = filter P xs"
  by (induction xs) auto

text \<open>
  C8. An entry whose options have \<open>Enabled\<close> equal to \<open>False\<close> is skipped: the load pass
  does exactly what it does on the configuration without that entry (the entry is neither
  resolved nor handed to the constructor), it leaves the registry's binding of the
  entry's name as it was, and so the name of the entry is not in the registry after the
  pass when it was not there before it, as in the registry a manager starts from.
\<close>

theorem load_plugins_skips_disabled:
  assumes conf: "conf_plugins self = Some es"
    and keys: "distinct (map fst es)"
    and entry: "(n, opts) \<in> set es"
    and off: "is_disabled opts"
  shows "load_plugins ctor self cs =
           load_plugins ctor (self\<lparr>conf_plugins := Some (remove1 (n, opts) es)\<rparr>) cs
         \<and> map_of (plugins (fst (load_plugins ctor self cs))) n = map_of (plugins cs) n
         \<and> (\<not> has_key (plugins cs) n \<longrightarrow>
              \<not> has_key (plugins (fst (load_plugins ctor self cs))) n)"
proof -
  let ?on = "\<lambda>(n, opts). \<not> is_disabled opts"
  have same: "load_entries ctor ts as es cs = load_entries ctor ts as (remove1 (n, opts) es) cs"
    for ts as
  proof -
    have "filter ?on (remove1 (n, opts) es) = filter ?on es"
      using off by (intro filter_remove1_rejected) simp
    then show ?thesis
      using load_entries_skip_disabled [of ctor ts as es cs]
        load_entries_skip_disabled [of ctor ts as "remove1 (n, opts) es" cs]
      by simp
  qed
  have "n \<notin> fst ` set (filter ?on es)"
  proof
    assume "n \<in> fst ` set (filter ?on es)"
    then obtain o' where in_es: "(n, o') \<in> set es" and on: "\<not> is_disabled o'"
      by auto
    from keys in_es entry have "o' = opts"
      by (meson eq_key_imp_eq_value)
    with on off show False by simp
  qed
  then have kept: "map_of (plugins (load_entries ctor ts as es cs)) n = map_of (plugins cs) n"
    for ts as
    using map_of_plugins_load_entries_other [of n "filter ?on es" ctor ts as cs]
      load_entries_skip_disabled [of ctor ts as es cs]
    by simp
  have one: "load_plugins ctor self cs =
           load_plugins ctor (self\<lparr>conf_plugins := Some (remove1 (n, opts) es)\<rparr>) cs"
    using conf same [of "conf_templates self" "conf_actions self"]
    by (simp add: load_plugins_def Let_def split: sum.splits)
  have two: "map_of (plugins (fst (load_plugins ctor self cs))) n = map_of (plugins cs) n"
    using conf kept [of "conf_templates self" "conf_actions self"]
    by (auto simp: load_plugins_def Let_def split: sum.splits)
  from two have three: "\<not> has_key (plugins cs) n \<longrightarrow>
      \<not> has_key (plugins (fst (load_plugins ctor self cs))) n"
    by (simp add: has_key_def)
  from one two three show ?thesis by blast
qed

theorem load_plugins_skips_disabled_witness:
  "load_plugins simple_ctor
     \<lparr>conf_plugins = Some [(''uptime'', [(''Enabled'', PBool False)]),
                           (''ping'', [(''Command'', PStr ''ping -c1 localhost'')])],
      conf_actions = None, conf_templates = demo_templates, stopping = False\<rparr> class_init
   = load_plugins simple_ctor
     \<lparr>conf_plugins = Some [(''ping'', [(''Command'', PStr ''ping -c1 localhost'')])],
      conf_actions = None, conf_templates = demo_templates, stopping = False\<rparr> class_init
   \<and> \<not> has_key (plugins class_init) ''uptime''
   \<and> \<not> has_key (plugins (fst (load_plugins simple_ctor
     \<lparr>conf_plugins = Some [(''uptime'', [(''Enabled'', PBool False)]),
                           (''ping'', [(''Command'', PStr ''ping -c1 localhost'')])],
      conf_actions = None, conf_templates = demo_templates, stopping = False\<rparr> class_init)))
       ''uptime''
   \<and> has_key (plugins (fst (load_plugins simple_ctor
     \<lparr>conf_plugins = Some [(''uptime'', [(''Enabled'', PBool False)]),
                           (''ping'', [(''Command'', PStr ''ping -c1 localhost'')])],
      conf_actions = None, conf_templates = demo_templates, stopping = False\<rparr> class_init)))
       ''ping''"
proof -
  have off: "is_disabled [(''Enabled'', PBool False)]"
    by (simp add: is_disabled_def has_key_def)
  have fresh: "\<not> has_key (plugins class_init) ''uptime''"
    by (simp add: has_key_def class_init_def)
  have ping: "has_key (plugins (fst (load_plugins simple_ctor
     \<lparr>conf_plugins = Some [(''uptime'', [(''Enabled'', PBool False)]),
                           (''ping'', [(''Command'', PStr ''ping -c1 localhost'')])],
      conf_actions = None, conf_templates = demo_templates, stopping = False\<rparr> class_init)))
       ''ping''"
    by (simp add: eval_defs)
  note t = load_plugins_skips_disabled
    [of "\<lparr>conf_plugins = Some [(''uptime'', [(''Enabled'', PBool False)]),
                           (''ping'', [(''Command'', PStr ''ping -c1 localhost'')])],
      conf_actions = None, conf_templates = demo_templates, stopping = False\<rparr>"
      "[(''uptime'', [(''Enabled'', PBool False)]),
                           (''ping'', [(''Command'', PStr ''ping -c1 localhost'')])]"
      "''uptime''" "[(''Enabled'', PBool False)]" simple_ctor class_init, OF _ _ _ off,
     simplified]
  have same: "load_plugins simple_ctor
     \<lparr>conf_plugins = Some [(''uptime'', [(''Enabled'', PBool False)]),
                           (''ping'', [(''Command'', PStr ''ping -c1 localhost'')])],
      conf_actions = None, conf_templates = demo_templates, stopping = False\<rparr> class_init
   = load_plugins simple_ctor
     \<lparr>conf_plugins = Some [(''ping'', [(''Command'', PStr ''ping -c1 localhost'')])],
      conf_actions = None, conf_templates = demo_templates, stopping = False\<rparr> class_init"
    using t [THEN conjunct1] by simp
  have absent: "\<not> has_key (plugins (fst (load_plugins simple_ctor
     \<lparr>conf_plugins = Some [(''uptime'', [(''Enabled'', PBool False)]),
                           (''ping'', [(''Command'', PStr ''ping -c1 localhost'')])],
      conf_actions = None, conf_templates = demo_templates, stopping = False\<rparr> class_init)))
       ''uptime''"
    by (rule t [THEN conjunct2, THEN conjunct2, rule_format, OF fresh])
  show ?thesis
    by (intro conjI same fresh absent ping)
qed

subsection \<open>C2: nothing to run\<close>

lemma named_plugins_Inl:
  "named_plugins cs ns = Inl e \<Longrightarrow> e = NoSuchPlugin \<and> \<not> list_all (has_key (plugins cs)) ns"
  by (induction ns arbitrary: e)
     (auto simp: get_plugin_def has_key_def split: option.splits sum.splits)

lemma named_plugins_Inr:
  "named_plugins cs ns = Inr as \<Longrightarrow>
     as = map (\<lambda>n. the (map_of (plugins cs) n)) ns \<and> list_all (has_key (plugins cs)) ns"
  by (induction ns arbitrary: as)
     (auto simp: get_plugin_def has_key_def split: option.splits sum.splits)

lemma named_plugins_unknown:
  "\<not> list_all (has_key (plugins cs)) ns \<Longrightarrow> named_plugins cs ns = Inl NoSuchPlugin"
  using named_plugins_Inl named_plugins_Inr by (cases "named_plugins cs ns") blast+

lemma named_plugins_registered:
  assumes "named_plugins cs ns = Inr as"
  shows "set as \<subseteq> snd ` set (plugins cs)"
proof
  fix a assume "a \<in> set as"
  with named_plugins_Inr [OF assms] obtain n
    where "has_key (plugins cs) n" and "a = the (map_of (plugins cs) n)"
    by (auto simp: list_all_iff)
  then have "map_of (plugins cs) n = Some a"
    by (auto simp: has_key_def)
  then have "(n, a) \<in> set (plugins cs)"
    by (rule map_of_SomeD)
  then show "a \<in> snd ` set (plugins cs)"
    by force
qed

lemma resolve_targets_registered:
  "resolve_targets cs ns flt = Inr ts \<Longrightarrow> set ts \<subseteq> snd ` set (plugins cs)"
  by (auto simp: resolve_targets_def get_plugins_def matching_def
        split: sum.splits if_splits option.splits list.splits
        dest!: named_plugins_registered)

text \<open>
  C2. When the resolved list of plugins is empty, \<open>add_process\<close> raises \<open>NoPluginsFound\<close>
  and changes nothing; the list is empty when no names are given (\<open>None\<close> or an empty
  list) and the filter is \<open>None\<close>, is empty or matches no plugin. When names are given
  and one of them is not registered, the call raises \<open>NoSuchPlugin\<close> instead, whatever the
  other names and the filter are. A call that raises leaves the shared state (ledger,
  registry, every plugin object) as it was.
\<close>

theorem add_process_nothing_resolved:
  "(resolve_targets cs ns flt = Inr [] \<longrightarrow> add_process cs ns flt = (cs, Inl NoPluginsFound)) \<and>
   (\<not> truthy ns \<and> (case flt of Some ((key, val) # others) \<Rightarrow> matching cs key val = [] | _ \<Rightarrow> True)
      \<longrightarrow> resolve_targets cs ns flt = Inr []) \<and>
   (truthy ns \<and> \<not> list_all (has_key (plugins cs)) (the ns)
      \<longrightarrow> add_process cs ns flt = (cs, Inl NoSuchPlugin)) \<and>
   (\<forall>e. snd (add_process cs ns flt) = Inl e \<longrightarrow> fst (add_process cs ns flt) = cs)"
proof (intro conjI impI allI)
  assume "resolve_targets cs ns flt = Inr []"
  then show "add_process cs ns flt = (cs, Inl NoPluginsFound)"
    by (simp add: add_process_def)
next
  assume "\<not> truthy ns \<and>
    (case flt of Some ((key, val) # others) \<Rightarrow> matching cs key val = [] | _ \<Rightarrow> True)"
  then show "resolve_targets cs ns flt = Inr []"
    by (auto simp: resolve_targets_def get_plugins_def truthy_def
          split: option.splits list.splits)
next
  assume "truthy ns \<and> \<not> list_all (has_key (plugins cs)) (the ns)"
  then show "add_process cs ns flt = (cs, Inl NoSuchPlugin)"
    by (simp add: add_process_def resolve_targets_def named_plugins_unknown)
next
  fix e assume "snd (add_process cs ns flt) = Inl e"
  then show "fst (add_process cs ns flt) = cs"
    by (auto simp: add_process_def Let_def split: sum.splits if_splits)
qed

theorem add_process_nothing_resolved_witness:
  "add_process demo_state None None = (demo_state, Inl NoPluginsFound) \<and>
   add_process demo_state (Some []) (Some []) = (demo_state, Inl NoPluginsFound) \<and>
   add_process demo_state None (Some [(''Category'', PStr ''database'')])
     = (demo_state, Inl NoPluginsFound) \<and>
   add_process demo_state (Some [''uptime'', ''nosuch'']) (Some [(''Category'', PStr ''system'')])
     = (demo_state, Inl NoSuchPlugin)"
  using add_process_nothing_resolved [of demo_state None None]
    add_process_nothing_resolved [of demo_state "Some []" "Some []"]
    add_process_nothing_resolved [of demo_state None "Some [(''Category'', PStr ''database'')]"]
    add_process_nothing_resolved
      [of demo_state "Some [''uptime'', ''nosuch'']" "Some [(''Category'', PStr ''system'')]"]
  by (simp add: demo_state_value truthy_def matching_def has_key_def)

text \<open>An unknown name is reported as \<open>NoSuchPlugin\<close>, not as \<open>NoPluginsFound\<close>.\<close>

theorem add_process_unknown_name_counterexample:
  "add_process demo_state (Some [''nosuch'']) None = (demo_state, Inl NoSuchPlugin) \<and>
   snd (add_process demo_state (Some [''nosuch'']) None) \<noteq> Inl NoPluginsFound"
  by (simp add: demo_state_value) (simp add: eval_defs)

subsection \<open>C5: the registry and its filter\<close>

text \<open>
  C5. With a filter of one key and one value, \<open>get_plugins\<close> returns the registered
  plugins, each once and in the order of the registry, whose parameters bind the key to a
  value equal (in the sense of \<open>==\<close>) to the filter's value, and no other; with no filter
  it returns the registry itself, the mapping from every registered name to its plugin.
\<close>

theorem get_plugins_filter:
  "get_plugins cs (Some [(key, val)]) =
     AsList (filter (\<lambda>a. \<exists>w. map_of (params (heap cs ! a)) key = Some w \<and> py_eq w val)
                    (map snd (plugins cs)))
   \<and> get_plugins cs None = AsDict (plugins cs)"
proof -
  have "(has_key d key \<and> py_eq (the (map_of d key)) val) =
        (\<exists>w. map_of d key = Some w \<and> py_eq w val)" for d :: dict
    by (auto simp: has_key_def)
  then show ?thesis
    by (simp add: get_plugins_def matching_def)
qed

theorem get_plugins_filter_witness:
  "get_plugins demo_state (Some [(''Category'', PStr ''network'')]) = AsList [1] \<and>
   get_plugins demo_state (Some [(''Interval'', PInt 60)]) = AsList [0, 1] \<and>
   get_plugins demo_state None = AsDict [(''uptime'', 0), (''ping'', 1)]"
  using get_plugins_filter [of demo_state "''Category''" "PStr ''network''"]
    get_plugins_filter [of demo_state "''Interval''" "PInt 60"]
  by (simp add: demo_state_value)

subsection \<open>C6: forcing the plugins of a process\<close>

lemma length_force_all: "length (force_all as h) = length h"
  by (induction as arbitrary: h) auto

lemma force_all_other: "a \<notin> set as \<Longrightarrow> force_all as h ! a = h ! a"
  by (induction as arbitrary: h) auto

lemma force_all_target:
  "a \<in> set as \<Longrightarrow> a < length h \<Longrightarrow>
   force_all as h ! a = (h ! a)\<lparr>force := True, forced_result := PNone\<rparr>"
proof (induction as arbitrary: h)
  case Nil
  then show ?case by simp
next
  case (Cons x xs)
  show ?case
  proof (cases "a \<in> set xs")
    case True
    then show ?thesis
      using Cons.IH [of "h[x := (h ! x)\<lparr>force := True, forced_result := PNone\<rparr>]"] Cons.prems
      by (cases "a = x") auto
  next
    case False
    with Cons.prems have "a = x" by simp
    with False Cons.prems show ?thesis
      by (simp add: force_all_other)
  qed
qed

text \<open>
  C6. A call of \<open>add_process\<close> that returns a handle has set \<open>force\<close> to true and
  \<open>forced_result\<close> to \<open>None\<close> in every plugin of its resolved list, whatever the two
  fields were before, and has changed no other field and no other plugin; the registry
  is unchanged, and the handle leads to the recorded list. The state is one in which the
  registry holds addresses of the store, as in every state reached from \<open>class_init\<close>
  (lemmas \<open>registry_ok_class_init\<close>, \<open>registry_ok_PluginManager\<close> and
  \<open>registry_ok_add_process\<close> below).
\<close>

theorem add_process_forces:
  assumes ok: "add_process cs ns flt = (cs', Inr h)"
    and reg: "registry_ok cs"
  shows "\<exists>targets.
           resolve_targets cs ns flt = Inr targets \<and>
           get_process cs' h = Inr (Some targets) \<and>
           (\<forall>a \<in> set targets.
              heap cs' ! a = (heap cs ! a)\<lparr>force := True, forced_result := PNone\<rparr>) \<and>
           (\<forall>a. a \<notin> set targets \<longrightarrow> heap cs' ! a = heap cs ! a) \<and>
           length (heap cs') = length (heap cs) \<and>
           plugins cs' = plugins cs"
proof -
  from ok obtain targets where res: "resolve_targets cs ns flt = Inr targets"
    and ne: "targets \<noteq> []"
    and cs': "cs' = cs\<lparr>heap := force_all targets (heap cs),
                        processes := processes cs @ [Some targets]\<rparr>"
    and h: "h = int (length (processes cs))"
    by (auto simp: add_process_def Let_def split: sum.splits if_splits)
  have inside: "a < length (heap cs)" if "a \<in> set targets" for a
    using resolve_targets_registered [OF res] reg that
    by (auto simp: registry_ok_def list_all_iff)
  have "get_process cs' h = Inr (Some targets)"
    by (simp add: get_process_def cs' h Let_def)
  moreover have "\<forall>a \<in> set targets.
      heap cs' ! a = (heap cs ! a)\<lparr>force := True, forced_result := PNone\<rparr>"
    using inside by (simp add: cs' force_all_target)
  moreover have "\<forall>a. a \<notin> set targets \<longrightarrow> heap cs' ! a = heap cs ! a"
    by (simp add: cs' force_all_other)
  ultimately show ?thesis
    using res by (simp add: cs' length_force_all)
qed

lemma demo_forced_value:
  "demo_forced =
     \<lparr>heap =
        [\<lparr>name = ''uptime'',
          params = [(''Interval'', PInt 60), (''Command'', PStr ''uptime''),
                    (''Category'', PStr ''system'')],
          force = True, forced_result = PNone\<rparr>,
         \<lparr>name = ''ping'',
          params = [(''Interval'', PInt 60), (''Command'', PStr ''ping -c1 localhost''),
                    (''Category'', PStr ''network'')],
          force = False, forced_result = PNone\<rparr>],
      plugins = [(''uptime'', 0), (''ping'', 1)],
      processes = [None, Some [0]]\<rparr>"
  by (simp add: demo_forced_def demo_state_value) (simp add: eval_defs)

lemma demo_twice_value:
  "add_process demo_forced None (Some [(''Interval'', PInt 60)]) = (demo_twice, Inr 2) \<and>
   demo_twice =
     \<lparr>heap =
        [\<lparr>name = ''uptime'',
          params = [(''Interval'', PInt 60), (''Command'', PStr ''uptime''),
                    (''Category'', PStr ''system'')],
          force = True, forced_result = PNone\<rparr>,
         \<lparr>name = ''ping'',
          params = [(''Interval'', PInt 60), (''Command'', PStr ''ping -c1 localhost''),
                    (''Category'', PStr ''network'')],
          force = True, forced_result = PNone\<rparr>],
      plugins = [(''uptime'', 0), (''ping'', 1)],
      processes = [None, Some [0], Some [0, 1]]\<rparr>"
  by (simp add: demo_twice_def demo_forced_value) (simp add: eval_defs)

text \<open>
  The second forced run covers \<open>uptime\<close>, already forced by the first one, and \<open>ping\<close>,
  which was not.
\<close>

theorem add_process_forces_witness:
  "add_process demo_forced None (Some [(''Interval'', PInt 60)]) = (demo_twice, Inr 2) \<and>
   registry_ok demo_forced \<and>
   force (heap demo_forced ! 0) \<and> \<not> force (heap demo_forced ! 1) \<and>
   resolve_targets demo_forced None (Some [(''Interval'', PInt 60)]) = Inr [0, 1] \<and>
   get_process demo_twice 2 = Inr (Some [0, 1]) \<and>
   heap demo_twice ! 0 = (heap demo_forced ! 0)\<lparr>force := True, forced_result := PNone\<rparr> \<and>
   heap demo_twice ! 1 = (heap demo_forced ! 1)\<lparr>force := True, forced_result := PNone\<rparr> \<and>
   plugins demo_twice = plugins demo_forced"
proof -
  have run: "add_process demo_forced None (Some [(''Interval'', PInt 60)]) = (demo_twice, Inr 2)"
    by (simp add: demo_twice_value)
  have reg: "registry_ok demo_forced"
    by (simp add: registry_ok_def demo_forced_value)
  have res: "resolve_targets demo_forced None (Some [(''Interval'', PInt 60)]) = Inr [0, 1]"
    by (simp add: demo_forced_value) (simp add: eval_defs)
  have before: "force (heap demo_forced ! 0) \<and> \<not> force (heap demo_forced ! 1)"
    by (simp add: demo_forced_value)
  from add_process_forces [OF run reg] res
  have "get_process demo_twice 2 = Inr (Some [0, 1]) \<and>
        (\<forall>a \<in> set [0, 1].
           heap demo_twice ! a = (heap demo_forced ! a)\<lparr>force := True, forced_result := PNone\<rparr>) \<and>
        plugins demo_twice = plugins demo_forced"
    by auto
  with run reg res before show ?thesis
    by simp
qed

subsection \<open>C3: handles\<close>

lemma add_process_ledger:
  assumes "add_process cs ns flt = (cs', r)"
  shows "case r of
           Inl e \<Rightarrow> cs' = cs
         | Inr h \<Rightarrow> h = int (length (processes cs)) \<and>
                    (\<exists>targets. processes cs' = processes cs @ [Some targets])"
  using assms by (auto simp: add_process_def Let_def split: sum.splits if_splits)

lemma add_processes_handles:
  "add_processes cs calls = (cs', rs) \<Longrightarrow>
     length (processes cs) \<le> length (processes cs') \<and>
     [h. Inr h \<leftarrow> rs] = map int [length (processes cs) ..< length (processes cs')] \<and>
     (ledger_ok cs \<longrightarrow> ledger_ok cs')"
proof (induction cs calls arbitrary: cs' rs rule: add_processes.induct)
  case (1 cs)
  then show ?case by simp
next
  case (2 cs plugins_arg flt calls)
  obtain cs1 r where step: "add_process cs plugins_arg flt = (cs1, r)"
    by (cases "add_process cs plugins_arg flt")
  obtain cs2 rs2 where rest: "add_processes cs1 calls = (cs2, rs2)"
    by (cases "add_processes cs1 calls")
  from "2.prems" step rest have out: "cs' = cs2" "rs = r # rs2"
    by simp_all
  note ih = "2.IH" [OF step [symmetric] rest]
  show ?case
  proof (cases r)
    case (Inl e)
    with add_process_ledger [OF step] have "cs1 = cs" by simp
    with ih Inl out show ?thesis by simp
  next
    case (Inr h)
    with add_process_ledger [OF step] obtain targets
      where h: "h = int (length (processes cs))"
        and app: "processes cs1 = processes cs @ [Some targets]"
      by auto
    have ok: "ledger_ok cs \<longrightarrow> ledger_ok cs1"
      using app by (auto simp: ledger_ok_def split: list.splits)
    have len: "length (processes cs1) = Suc (length (processes cs))"
      using app by simp
    from ih len have le: "Suc (length (processes cs)) \<le> length (processes cs')"
      using out by simp
    have "[length (processes cs) ..< length (processes cs')] =
          length (processes cs) # [Suc (length (processes cs)) ..< length (processes cs')]"
      using le by (simp add: upt_conv_Cons)
    with ih len h Inr out ok show ?thesis by simp
  qed
qed

lemma add_process_recorded:
  assumes "add_process cs ns flt = (cs', Inr h)"
  shows "\<exists>targets. resolve_targets cs ns flt = Inr targets \<and>
           processes cs' = processes cs @ [Some targets]"
  using assms by (auto simp: add_process_def Let_def split: sum.splits if_splits)

lemma add_processes_recorded:
  "add_processes cs calls = (cs', rs) \<Longrightarrow>
     processes cs' = processes cs @ map Some (recorded cs calls)"
proof (induction cs calls arbitrary: cs' rs rule: add_processes.induct)
  case (1 cs)
  then show ?case by simp
next
  case (2 cs plugins_arg flt calls)
  obtain cs1 r where step: "add_process cs plugins_arg flt = (cs1, r)"
    by (cases "add_process cs plugins_arg flt")
  obtain cs2 rs2 where rest: "add_processes cs1 calls = (cs2, rs2)"
    by (cases "add_processes cs1 calls")
  from "2.prems" step rest have out: "cs' = cs2"
    by simp
  note ih = "2.IH" [OF step [symmetric] rest]
  show ?case
  proof (cases r)
    case (Inl e)
    with add_process_ledger [OF step] have "cs1 = cs" by simp
    with ih Inl out step show ?thesis by simp
  next
    case (Inr h)
    with add_process_recorded [of cs plugins_arg flt cs1 h] step obtain targets
      where "resolve_targets cs plugins_arg flt = Inr targets"
        and "processes cs1 = processes cs @ [Some targets]"
      by auto
    with ih Inr out step show ?thesis by simp
  qed
qed

text \<open>
  C3. From the ledger of a new process (only the \<open>None\<close> at index 0), the handles that a
  sequence of calls of \<open>add_process\<close> returns are, in order, 1, 2, 3 and so on up to the
  number of records; a failing call uses no handle, and the ledger holds, after the
  \<open>None\<close>, the lists the successful calls resolved, in the order of the calls. On the
  resulting ledger of \<open>n\<close> records, \<open>get_process\<close> returns for every handle \<open>h\<close> from 1 to
  \<open>n\<close> the record of the call that returned \<open>h\<close>, returns \<open>None\<close> (no record, no
  exception) for 0, raises \<open>IndexError\<close> above \<open>n\<close> and below \<open>-(n+1)\<close>, and for a negative
  index from \<open>-(n+1)\<close> to \<open>-1\<close> returns what it returns for that index plus \<open>n+1\<close>:
  Python counts a negative index from the end of the list.
\<close>

theorem add_process_handles_and_lookup:
  assumes fresh: "processes cs = [None]"
    and run: "add_processes cs calls = (cs', rs)"
  shows "[h. Inr h \<leftarrow> rs] = map int [1 ..< length (processes cs')] \<and>
         processes cs' = None # map Some (recorded cs calls) \<and>
         get_process cs' 0 = Inr None \<and>
         (\<forall>h. 1 \<le> h \<and> h < int (length (processes cs')) \<longrightarrow>
              get_process cs' h = Inr (Some (recorded cs calls ! (nat h - 1)))) \<and>
         (\<forall>h. int (length (processes cs')) \<le> h \<or> h < - int (length (processes cs')) \<longrightarrow>
              get_process cs' h = Inl IndexError) \<and>
         (\<forall>h. - int (length (processes cs')) \<le> h \<and> h < 0 \<longrightarrow>
              get_process cs' h = get_process cs' (h + int (length (processes cs'))))"
proof -
  from fresh have start: "length (processes cs) = 1"
    by simp
  from add_processes_handles [OF run] start
  have handles: "[h. Inr h \<leftarrow> rs] = map int [1 ..< length (processes cs')]"
    by simp
  from add_processes_recorded [OF run] fresh
  have ledger: "processes cs' = None # map Some (recorded cs calls)"
    by simp
  have zero: "get_process cs' 0 = Inr None"
    by (simp add: get_process_def ledger)
  have inside: "get_process cs' h = Inr (Some (recorded cs calls ! (nat h - 1)))"
    if "1 \<le> h \<and> h < int (length (processes cs'))" for h
  proof -
    from that have "nat h - 1 < length (recorded cs calls)" "nat h \<noteq> 0"
      by (auto simp: ledger)
    with that show ?thesis
      by (auto simp: get_process_def ledger Let_def nth_Cons')
  qed
  have outside: "get_process cs' h = Inl IndexError"
    if "int (length (processes cs')) \<le> h \<or> h < - int (length (processes cs'))" for h
    using that by (auto simp: get_process_def Let_def)
  have negative: "get_process cs' h = get_process cs' (h + int (length (processes cs')))"
    if "- int (length (processes cs')) \<le> h \<and> h < 0" for h
    using that by (auto simp: get_process_def Let_def add.commute)
  from handles ledger zero inside outside negative show ?thesis
    by blast
qed

lemma demo_calls_value:
  "add_processes demo_state
     [(Some [''uptime''], None), (None, None), (None, Some [(''Interval'', PInt 60)])]
   = (demo_twice, [Inr 1, Inl NoPluginsFound, Inr 2])"
proof -
  have one: "add_process demo_state (Some [''uptime'']) None = (demo_forced, Inr 1)"
    by (simp add: demo_forced_value) (simp add: demo_state_value, simp add: eval_defs)
  have two: "add_process demo_forced None None = (demo_forced, Inl NoPluginsFound)"
    by (simp add: add_process_def resolve_targets_def truthy_def)
  have three: "add_process demo_forced None (Some [(''Interval'', PInt 60)]) = (demo_twice, Inr 2)"
    by (simp add: demo_twice_value)
  show ?thesis
    by (simp add: one two three)
qed

lemma demo_recorded_value:
  "recorded demo_state
     [(Some [''uptime''], None), (None, None), (None, Some [(''Interval'', PInt 60)])]
   = [[0], [0, 1]]"
proof -
  have one: "add_process demo_state (Some [''uptime'']) None = (demo_forced, Inr 1)"
    by (simp add: demo_forced_value) (simp add: demo_state_value, simp add: eval_defs)
  have one': "resolve_targets demo_state (Some [''uptime'']) None = Inr [0]"
    by (simp add: demo_state_value) (simp add: eval_defs)
  have two: "add_process demo_forced None None = (demo_forced, Inl NoPluginsFound)"
    by (simp add: add_process_def resolve_targets_def truthy_def)
  have three: "add_process demo_forced None (Some [(''Interval'', PInt 60)]) = (demo_twice, Inr 2)"
    by (simp add: demo_twice_value)
  have three': "resolve_targets demo_forced None (Some [(''Interval'', PInt 60)]) = Inr [0, 1]"
    by (simp add: demo_forced_value) (simp add: eval_defs)
  show ?thesis
    by (simp add: one one' two three three')
qed

theorem add_process_handles_and_lookup_witness:
  "processes demo_state = [None] \<and>
   add_processes demo_state
     [(Some [''uptime''], None), (None, None), (None, Some [(''Interval'', PInt 60)])]
   = (demo_twice, [Inr 1, Inl NoPluginsFound, Inr 2]) \<and>
   [h. Inr h \<leftarrow> [Inr 1, Inl NoPluginsFound, Inr 2 :: error + int]] = [1, 2] \<and>
   recorded demo_state
     [(Some [''uptime''], None), (None, None), (None, Some [(''Interval'', PInt 60)])]
   = [[0], [0, 1]] \<and>
   processes demo_twice = [None, Some [0], Some [0, 1]] \<and>
   get_process demo_twice 0 = Inr None \<and>
   get_process demo_twice 1 = Inr (Some [0]) \<and>
   get_process demo_twice 2 = Inr (Some [0, 1]) \<and>
   get_process demo_twice 3 = Inl IndexError \<and>
   get_process demo_twice (- 4) = Inl IndexError \<and>
   get_process demo_twice (- 1) = get_process demo_twice 2 \<and>
   get_process demo_twice (- 2) = get_process demo_twice 1 \<and>
   get_process demo_twice (- 3) = get_process demo_twice 0"
proof -
  have fresh: "processes demo_state = [None]"
    by (simp add: demo_state_value)
  have len: "length (processes demo_twice) = 3"
    by (simp add: demo_twice_value)
  note t = add_process_handles_and_lookup [OF fresh demo_calls_value]
  from t have ledger: "processes demo_twice = None # map Some (recorded demo_state
     [(Some [''uptime''], None), (None, None), (None, Some [(''Interval'', PInt 60)])])"
    by blast
  from t have zero: "get_process demo_twice 0 = Inr None"
    by blast
  from t have inside: "\<forall>h. 1 \<le> h \<and> h < int (length (processes demo_twice)) \<longrightarrow>
      get_process demo_twice h = Inr (Some (recorded demo_state
     [(Some [''uptime''], None), (None, None), (None, Some [(''Interval'', PInt 60)])]
       ! (nat h - 1)))"
    by blast
  from t have outside: "\<forall>h. int (length (processes demo_twice)) \<le> h \<or>
      h < - int (length (processes demo_twice)) \<longrightarrow> get_process demo_twice h = Inl IndexError"
    by blast
  from t have negative: "\<forall>h. - int (length (processes demo_twice)) \<le> h \<and> h < 0 \<longrightarrow>
      get_process demo_twice h = get_process demo_twice (h + int (length (processes demo_twice)))"
    by blast
  have l: "processes demo_twice = [None, Some [0], Some [0, 1]]"
    using ledger [unfolded demo_recorded_value] by simp
  have a: "get_process demo_twice 1 = Inr (Some [0])"
    using inside [rule_format, of 1, unfolded demo_recorded_value] len by simp
  have b: "get_process demo_twice 2 = Inr (Some [0, 1])"
    using inside [rule_format, of 2, unfolded demo_recorded_value] len by simp
  have c: "get_process demo_twice 3 = Inl IndexError"
    using outside [rule_format, of 3] len by simp
  have d: "get_process demo_twice (- 4) = Inl IndexError"
    using outside [rule_format, of "- 4"] len by simp
  have e: "get_process demo_twice (- 1) = get_process demo_twice 2"
    using negative [rule_format, of "- 1"] len by simp
  have f: "get_process demo_twice (- 2) = get_process demo_twice 1"
    using negative [rule_format, of "- 2"] len by simp
  have g: "get_process demo_twice (- 3) = get_process demo_twice 0"
    using negative [rule_format, of "- 3"] len by simp
  have hs: "[h. Inr h \<leftarrow> [Inr 1, Inl NoPluginsFound, Inr 2 :: error + int]] = [1, 2]"
    by simp
  show ?thesis
    by (intro conjI fresh demo_calls_value hs demo_recorded_value l zero a b c d e f g)
qed

text \<open>
  After one forced run, whose handle is 1, the index \<open>-1\<close> is outside the assigned
  handles and still returns the record of that run; the index 0 returns \<open>None\<close> without
  raising.
\<close>

theorem get_process_negative_counterexample:
  "add_process demo_state (Some [''ping'']) None
     = (fst (add_process demo_state (Some [''ping'']) None), Inr 1) \<and>
   get_process (fst (add_process demo_state (Some [''ping'']) None)) (- 1) = Inr (Some [1]) \<and>
   get_process (fst (add_process demo_state (Some [''ping'']) None)) 0 = Inr None"
  by (simp add: demo_state_value) (simp add: eval_defs)

subsection \<open>C10: one registry and one ledger for all managers\<close>







lemma set_dict_set: "set (dict_set d k v) \<subseteq> insert (k, v) (set d)"
  unfolding dict_set_def by (induction d) auto


lemma registry_ok_load_entries:
  "registry_ok cs \<Longrightarrow> registry_ok (load_entries ctor ts as es cs)"
proof (induction ctor ts as es cs rule: load_entries.induct)
  case (1 ctor ts as cs)
  then show ?case by simp
next
  case (2 ctor ts as plugin options rest cs)
  have step: "registry_ok (cs\<lparr>heap := heap cs @ [p],
                plugins := dict_set (plugins cs) plugin (length (heap cs))\<rparr>)" for p
    using "2.prems"
    using set_dict_set [of "plugins cs" plugin "length (heap cs)"]
    by (fastforce simp: registry_ok_def list_all_iff less_Suc_eq)
  show ?case
    using 2 step by (auto split: sum.splits)
qed


lemma registry_ok_add_process:
  "registry_ok cs \<Longrightarrow> registry_ok (fst (add_process cs ns flt))"
  by (auto simp: add_process_def registry_ok_def length_force_all Let_def split: sum.splits)

lemma registry_ok_class_init: "registry_ok class_init"
  by (simp add: registry_ok_def class_init_def)

lemma registry_ok_PluginManager:
  "registry_ok cs \<Longrightarrow> registry_ok (fst (PluginManager ctor plugins_arg actions templates cs))"
  by (auto simp: PluginManager_def load_plugins_def Let_def registry_ok_load_entries
        split: sum.splits option.splits)








subsection \<open>C7: stopping\<close>

lemma poll_log_step:
  assumes "k < K"
  shows "poll_log alive cs cnt k K =
           (if length (plugins_left alive cs k) \<noteq> cnt
            then [(length (plugins_left alive cs k), plugins_left alive cs k)] else [])
           @ poll_log alive cs (length (plugins_left alive cs k)) (Suc k) K"
proof -
  have split: "[k ..< K] = k # [Suc k ..< K]"
    using assms by (simp add: upt_conv_Cons)
  show ?thesis
    unfolding poll_log_def split
    by (auto intro!: arg_cong [where f = concat])
qed

lemma wait_stopped_returns:
  "plugins_left alive cs K = [] \<Longrightarrow> k \<le> K \<Longrightarrow>
   \<forall>j. k \<le> j \<and> j < K \<longrightarrow> plugins_left alive cs j \<noteq> [] \<Longrightarrow>
   wait_stopped alive cs k cnt eff =
     Some (eff\<lparr>info := info eff @ poll_log alive cs cnt k K,
               sleeps := sleeps eff @ replicate (K - k) (1 / 2)\<rparr>)"
proof (induction "K - k" arbitrary: k cnt eff)
  case 0
  then have "k = K" by simp
  with 0 show ?case
    by (subst wait_stopped.simps) (simp add: poll_log_def)
next
  case (Suc d)
  then have lt: "k < K" and alive_k: "plugins_left alive cs k \<noteq> []"
    by auto
  have ih: "wait_stopped alive cs (Suc k) cnt' eff' =
     Some (eff'\<lparr>info := info eff' @ poll_log alive cs cnt' (Suc k) K,
               sleeps := sleeps eff' @ replicate (K - Suc k) (1 / 2)\<rparr>)" for cnt' eff'
    using Suc.hyps(1) [of "Suc k" cnt' eff'] Suc.hyps(2) Suc.prems by auto
  have rep: "replicate (K - k) (1 / 2 :: rat) = (1 / 2) # replicate (K - Suc k) (1 / 2)"
    using lt by (cases "K - k") (auto simp: Suc_diff_Suc)
  show ?case
    by (subst wait_stopped.simps)
       (simp add: alive_k ih poll_log_step [OF lt] rep Let_def)
qed

lemma wait_stopped_Some:
  assumes "wait_stopped alive cs k cnt eff = Some r"
  shows "\<exists>K\<ge>k. plugins_left alive cs K = []"
proof (rule wait_stopped.raw_induct
    [where P = "\<lambda>alive cs k cnt eff r. \<exists>K\<ge>k. plugins_left alive cs K = []", OF _ assms],
    goal_cases)
  case (1 f alive cs k cnt eff r)
  show ?case
  proof (cases "plugins_left alive cs k = []")
    case True
    then show ?thesis by blast
  next
    case False
    with 1(2) obtain cnt' eff' where "f alive cs (Suc k) cnt' eff' = Some r"
      by (auto simp: Let_def)
    from 1(1) [OF this] show ?thesis
      using Suc_leD by blast
  qed
qed


lemma plugins_left_Nil: "(plugins_left alive cs k = []) = list_all (\<lambda>(nm, a). \<not> alive k a) (plugins cs)"
  by (auto simp: plugins_left_def filter_empty_conv list_all_iff)

lemma wait_stopped_first_quiet:
  assumes "plugins_left alive cs K = []"
  shows "\<exists>K0. plugins_left alive cs K0 = [] \<and> (\<forall>k<K0. plugins_left alive cs k \<noteq> []) \<and>
           wait_stopped alive cs 0 cnt eff =
             Some (eff\<lparr>info := info eff @ poll_log alive cs cnt 0 K0,
                       sleeps := sleeps eff @ replicate K0 (1 / 2)\<rparr>)"
proof -
  define K0 where "K0 = (LEAST K. plugins_left alive cs K = [])"
  have quiet: "plugins_left alive cs K0 = []"
    unfolding K0_def using assms by (rule LeastI)
  have busy: "\<forall>k<K0. plugins_left alive cs k \<noteq> []"
    unfolding K0_def using not_less_Least by blast
  from wait_stopped_returns [of alive cs K0 0 cnt eff] quiet busy
  show ?thesis by auto
qed

text \<open>
  C7. Without \<open>blocking\<close>, \<open>stop\<close> sets \<open>stopping\<close>, calls \<open>terminate()\<close> on every
  registered plugin and returns, with no pass and no sleep, whatever the plugins answer.
  With \<open>blocking\<close>, a call that returns has done the same and then run the passes 0 to
  \<open>K\<close>, where \<open>K\<close> is the first pass in which no registered plugin answered alive: it
  has slept 0.5 after each of the passes before \<open>K\<close> and written a line exactly in the
  passes before \<open>K\<close> whose count of plugins alive differs from the count before (the
  number of registered plugins, for the first pass). It returns whenever some pass finds
  no plugin alive.
\<close>

theorem stop_waits_for_plugins:
  "stop alive self cs False =
     Some (self\<lparr>stopping := True\<rparr>,
           \<lparr>terminated = map snd (plugins cs), info = [], sleeps = []\<rparr>) \<and>
   (\<forall>self' eff. stop alive self cs True = Some (self', eff) \<longrightarrow>
      self' = self\<lparr>stopping := True\<rparr> \<and>
      terminated eff = map snd (plugins cs) \<and>
      (\<exists>K. list_all (\<lambda>(nm, a). \<not> alive K a) (plugins cs) \<and>
           (\<forall>k<K. plugins_left alive cs k \<noteq> []) \<and>
           sleeps eff = replicate K (1 / 2) \<and>
           info eff = poll_log alive cs (length (plugins cs)) 0 K)) \<and>
   ((\<exists>K. list_all (\<lambda>(nm, a). \<not> alive K a) (plugins cs)) \<longrightarrow>
      stop alive self cs True \<noteq> None)"
proof (intro conjI allI impI)
  show "stop alive self cs False =
     Some (self\<lparr>stopping := True\<rparr>,
           \<lparr>terminated = map snd (plugins cs), info = [], sleeps = []\<rparr>)"
    by (simp add: stop_def)
next
  fix self' eff
  assume ret: "stop alive self cs True = Some (self', eff)"
  let ?eff0 = "\<lparr>terminated = map snd (plugins cs), info = [], sleeps = []\<rparr>"
  have shape: "self' = self\<lparr>stopping := True\<rparr> \<and>
    (if plugins cs = [] then eff = ?eff0
     else wait_stopped alive cs 0 (length (plugins cs)) ?eff0 = Some eff)"
    using ret by (auto simp: stop_def Let_def split: if_splits)
  then show "self' = self\<lparr>stopping := True\<rparr>" ..
  have rest: "terminated eff = map snd (plugins cs) \<and>
      (\<exists>K. list_all (\<lambda>(nm, a). \<not> alive K a) (plugins cs) \<and>
           (\<forall>k<K. plugins_left alive cs k \<noteq> []) \<and>
           sleeps eff = replicate K (1 / 2) \<and>
           info eff = poll_log alive cs (length (plugins cs)) 0 K)"
  proof (cases "plugins cs = []")
    case True
    with shape have "eff = ?eff0" by simp
    with True have "terminated eff = map snd (plugins cs) \<and>
        list_all (\<lambda>(nm, a). \<not> alive 0 a) (plugins cs) \<and>
        (\<forall>k<0. plugins_left alive cs k \<noteq> []) \<and>
        sleeps eff = replicate 0 (1 / 2) \<and>
        info eff = poll_log alive cs (length (plugins cs)) 0 0"
      by (simp add: poll_log_def)
    then show ?thesis by blast
  next
    case False
    with shape have run: "wait_stopped alive cs 0 (length (plugins cs)) ?eff0 = Some eff"
      by simp
    from wait_stopped_Some [OF run] obtain K where "plugins_left alive cs K = []"
      by blast
    from wait_stopped_first_quiet [OF this, of "length (plugins cs)" ?eff0] run
    obtain K0 where "plugins_left alive cs K0 = []"
      and "\<forall>k<K0. plugins_left alive cs k \<noteq> []"
      and "eff = ?eff0\<lparr>info := info ?eff0 @ poll_log alive cs (length (plugins cs)) 0 K0,
                        sleeps := sleeps ?eff0 @ replicate K0 (1 / 2)\<rparr>"
      by auto
    then have "terminated eff = map snd (plugins cs) \<and>
        list_all (\<lambda>(nm, a). \<not> alive K0 a) (plugins cs) \<and>
        (\<forall>k<K0. plugins_left alive cs k \<noteq> []) \<and>
        sleeps eff = replicate K0 (1 / 2) \<and>
        info eff = poll_log alive cs (length (plugins cs)) 0 K0"
      by (simp add: plugins_left_Nil)
    then show ?thesis by blast
  qed
  from rest show "terminated eff = map snd (plugins cs)" ..
  from rest show "\<exists>K. list_all (\<lambda>(nm, a). \<not> alive K a) (plugins cs) \<and>
           (\<forall>k<K. plugins_left alive cs k \<noteq> []) \<and>
           sleeps eff = replicate K (1 / 2) \<and>
           info eff = poll_log alive cs (length (plugins cs)) 0 K" ..
next
  assume "\<exists>K. list_all (\<lambda>(nm, a). \<not> alive K a) (plugins cs)"
  then obtain K where "plugins_left alive cs K = []"
    by (auto simp: plugins_left_Nil)
  from wait_stopped_first_quiet [OF this]
  show "stop alive self cs True \<noteq> None"
    by (auto simp: stop_def Let_def) (metis option.distinct(1))
qed

lemma demo_stop_value:
  "stop demo_alive demo_manager demo_state True =
     Some (demo_manager\<lparr>stopping := True\<rparr>,
           \<lparr>terminated = [0, 1], info = [(1, [''uptime''])], sleeps = [1 / 2, 1 / 2]\<rparr>)"
  by (simp add: stop_def demo_state_value wait_stopped.simps plugins_left_def demo_alive_def
        Let_def)

theorem stop_waits_for_plugins_witness:
  "stop demo_alive demo_manager demo_state False =
     Some (demo_manager\<lparr>stopping := True\<rparr>, \<lparr>terminated = [0, 1], info = [], sleeps = []\<rparr>) \<and>
   stop demo_alive demo_manager demo_state True =
     Some (demo_manager\<lparr>stopping := True\<rparr>,
           \<lparr>terminated = [0, 1], info = [(1, [''uptime''])], sleeps = [1 / 2, 1 / 2]\<rparr>) \<and>
   list_all (\<lambda>(nm, a). \<not> demo_alive 2 a) (plugins demo_state) \<and>
   plugins_left demo_alive demo_state 0 = [''uptime'', ''ping''] \<and>
   plugins_left demo_alive demo_state 1 = [''uptime''] \<and>
   poll_log demo_alive demo_state (length (plugins demo_state)) 0 2 = [(1, [''uptime''])] \<and>
   (\<exists>K. list_all (\<lambda>(nm, a). \<not> demo_alive K a) (plugins demo_state) \<and>
        (\<forall>k<K. plugins_left demo_alive demo_state k \<noteq> []) \<and>
        [1 / 2, 1 / 2] = replicate K (1 / 2 :: rat) \<and>
        [(1, [''uptime''])] = poll_log demo_alive demo_state (length (plugins demo_state)) 0 K)"
proof -
  note t = stop_waits_for_plugins [of demo_alive demo_manager demo_state]
  have regs: "map snd (plugins demo_state) = [0, 1]"
    by (simp add: demo_state_value)
  from t [THEN conjunct1] regs have quick: "stop demo_alive demo_manager demo_state False =
     Some (demo_manager\<lparr>stopping := True\<rparr>, \<lparr>terminated = [0, 1], info = [], sleeps = []\<rparr>)"
    by simp
  from t [THEN conjunct2, THEN conjunct1, rule_format, OF demo_stop_value]
  have slow: "\<exists>K. list_all (\<lambda>(nm, a). \<not> demo_alive K a) (plugins demo_state) \<and>
        (\<forall>k<K. plugins_left demo_alive demo_state k \<noteq> []) \<and>
        [1 / 2, 1 / 2] = replicate K (1 / 2 :: rat) \<and>
        [(1, [''uptime''])] = poll_log demo_alive demo_state (length (plugins demo_state)) 0 K"
    by simp
  have polls: "list_all (\<lambda>(nm, a). \<not> demo_alive 2 a) (plugins demo_state)"
    "plugins_left demo_alive demo_state 0 = [''uptime'', ''ping'']"
    "plugins_left demo_alive demo_state 1 = [''uptime'']"
    by (simp_all add: demo_state_value demo_alive_def plugins_left_def)
  have lines: "poll_log demo_alive demo_state (length (plugins demo_state)) 0 2
                 = [(1, [''uptime''])]"
    by (simp add: poll_log_def plugins_left_def demo_alive_def demo_state_value upt_conv_Cons)
  show ?thesis
    by (intro conjI quick demo_stop_value slow polls lines)
qed

end
